theory Spec2Isabelle
  imports Main "HOL-Library.Word" "HOL-Library.Sublist" "HOL-Library.AList"
begin

unbundle bit_operations_syntax

section \<open>The inspector I/O bridge of \<^verbatim>\<open>src/inspector_io.cc\<close>\<close>

text \<open>
  The development embeds the runtime-thread side of \<^verbatim>\<open>InspectorIo\<close> and the transport
  delegate \<^verbatim>\<open>InspectorIoDelegate\<close>. One thread's calls are modelled at a time: a
  function takes the bridge and returns the bridge after the call. Calls into the
  collaborators (the runtime agent, libuv, the platform, standard error) are recorded in
  fields of the bridge record, in the order in which they are made. A failed
  \<^verbatim>\<open>CHECK\<close> aborts the process and is the value \<open>Inl CheckFailed\<close>. The outcomes
  of \<^verbatim>\<open>uv_thread_create\<close>, \<^verbatim>\<open>uv_thread_join\<close>, \<^verbatim>\<open>server.Start()\<close> and the entropy
  source are arguments of the functions that depend on them; \<^verbatim>\<open>uv_async_send\<close> on an
  initialised handle returns 0.
\<close>

subsection \<open>Target identity: \<^verbatim>\<open>GenerateID\<close>\<close>

datatype error = CheckFailed

text \<open>One lowercase hexadecimal digit, as \<^verbatim>\<open>printf\<close> writes it for \<^verbatim>\<open>%x\<close>.\<close>

definition hex_digit :: "nat \<Rightarrow> char" where
  "hex_digit d = ''0123456789abcdef'' ! d"

text \<open>The digits of \<^verbatim>\<open>%x\<close>: most significant first, no leading zero.\<close>

function hex_digits :: "nat \<Rightarrow> string" where
  "hex_digits n =
     (if n < 16 then [hex_digit n] else hex_digits (n div 16) @ [hex_digit (n mod 16)])"
  by pat_completeness auto
termination
  by (relation "measure (\<lambda>n. n)") auto

text \<open>\<^verbatim>\<open>%04x\<close>: a minimum width of four, padded on the left with zeros.\<close>

definition fmt_04x :: "nat \<Rightarrow> string" where
  "fmt_04x n = replicate (4 - length (hex_digits n)) (CHR ''0'') @ hex_digits n"

text \<open>
  \<^verbatim>\<open>GenerateID\<close>. The argument is the outcome of \<^verbatim>\<open>crypto::EntropySource\<close>:
  \<open>None\<close> when it returns false, \<open>Some buffer\<close> with the eight 16-bit words it
  wrote otherwise. Each \<^verbatim>\<open>uint16_t\<close> is promoted to \<^verbatim>\<open>int\<close> before the masks are
  applied, so the masks work on the unsigned value. \<^verbatim>\<open>snprintf\<close> writes at most 255
  characters into \<^verbatim>\<open>uuid[256]\<close>.
\<close>

definition GenerateID :: "16 word list option \<Rightarrow> error + string" where
  "GenerateID entropy =
     (case entropy of
        None \<Rightarrow> Inl CheckFailed
      | Some buffer \<Rightarrow>
          Inr (take 255
            (fmt_04x (unat (buffer ! 0)) @ fmt_04x (unat (buffer ! 1)) @ ''-'' @
             fmt_04x (unat (buffer ! 2)) @ ''-'' @
             fmt_04x ((unat (buffer ! 3) AND 0x0fff) OR 0x4000) @ ''-'' @
             fmt_04x ((unat (buffer ! 4) AND 0x3fff) OR 0x8000) @ ''-'' @
             fmt_04x (unat (buffer ! 5)) @ fmt_04x (unat (buffer ! 6)) @
             fmt_04x (unat (buffer ! 7)))))"

text \<open>
  The shape \<^verbatim>\<open>^[0-9a-f]{8}-[0-9a-f]{4}-4[0-9a-f]{3}-[89ab][0-9a-f]{3}-[0-9a-f]{12}$\<close>,
  position by position.
\<close>

definition is_lower_hex :: "char \<Rightarrow> bool" where
  "is_lower_hex c = (c \<in> set ''0123456789abcdef'')"

definition uuid_v4_shape :: "string \<Rightarrow> bool" where
  "uuid_v4_shape s =
     (length s = 36 \<and>
      list_all is_lower_hex (take 8 s) \<and> s ! 8 = CHR ''-'' \<and>
      list_all is_lower_hex (take 4 (drop 9 s)) \<and> s ! 13 = CHR ''-'' \<and>
      s ! 14 = CHR ''4'' \<and> list_all is_lower_hex (take 3 (drop 15 s)) \<and>
      s ! 18 = CHR ''-'' \<and>
      s ! 19 \<in> set ''89ab'' \<and> list_all is_lower_hex (take 3 (drop 20 s)) \<and>
      s ! 23 = CHR ''-'' \<and>
      list_all is_lower_hex (take 12 (drop 24 s)))"

subsection \<open>The data of the bridge\<close>

datatype State = kNew | kAccepting | kDone | kError | kShutDown

datatype InspectorAction =
  kStartSession | kStartSessionUnconditionally | kSendMessage | kEndSession

datatype TransportAction =
  kKill | kSendMessage | kStop | kAcceptSession | kDeclineSession

text \<open>A \<^verbatim>\<open>StringView\<close> or \<^verbatim>\<open>StringBuffer\<close>: its 16-bit code units.\<close>

type_synonym StringView = "16 word list"

text \<open>\<^verbatim>\<open>MessageQueue<ActionType>\<close>: a deque of (action, session id, payload).\<close>

type_synonym 'a MessageQueue = "('a \<times> int \<times> StringView) list"

text \<open>
  An \<^verbatim>\<open>InspectorSession\<close> object is named by a number; a
  \<^verbatim>\<open>std::unique_ptr<InspectorSession>\<close> is \<open>None\<close> when it is null.
\<close>

type_synonym InspectorSession = nat

text \<open>The calls the bridge makes on the runtime agent and its sessions.\<close>

datatype agent_call = Connect int | Dispatch InspectorSession StringView

text \<open>
  The members of \<^verbatim>\<open>InspectorIo\<close> that the modelled functions read or write (the
  trailing underscore of the member names is dropped), followed by the record of
  effects: what was written to standard error (one entry per \<^verbatim>\<open>fprintf\<close>), the
  number of \<^verbatim>\<open>uv_async_send\<close> calls on \<^verbatim>\<open>thread_req_\<close> (the I/O thread's notifier)
  and on \<^verbatim>\<open>main_thread_req_\<close> (the runtime thread's notifier), the foreground tasks
  posted, the interrupts requested, the broadcasts of \<^verbatim>\<open>incoming_message_cond_\<close>,
  the calls to \<^verbatim>\<open>ResumeStartup\<close>, the successful thread joins, and the calls on the
  agent.
\<close>

record InspectorIo =
  state :: State
  dispatching_messages :: bool
  wait_for_connect :: bool
  port :: int
  incoming_message_queue :: "InspectorAction MessageQueue"
  dispatching_message_queue :: "InspectorAction MessageQueue"
  outgoing_message_queue :: "TransportAction MessageQueue"
  sessions :: "(int \<times> InspectorSession option) list"
  stderr :: "string list"
  thread_req_sends :: nat
  main_thread_req_sends :: nat
  foreground_tasks :: nat
  interrupts :: nat
  broadcasts :: nat
  resume_startups :: nat
  thread_joins :: nat
  agent_calls :: "agent_call list"

text \<open>The constructor: state \<^verbatim>\<open>kNew\<close>, port \<^verbatim>\<open>-1\<close>, empty queues and session table.\<close>

definition InspectorIo_new :: "bool \<Rightarrow> InspectorIo" where
  "InspectorIo_new wait =
     \<lparr> state = kNew, dispatching_messages = False, wait_for_connect = wait, port = - 1,
       incoming_message_queue = [], dispatching_message_queue = [],
       outgoing_message_queue = [], sessions = [], stderr = [],
       thread_req_sends = 0, main_thread_req_sends = 0, foreground_tasks = 0,
       interrupts = 0, broadcasts = 0, resume_startups = 0, thread_joins = 0,
       agent_calls = [] \<rparr>"

subsection \<open>The mailbox\<close>

text \<open>
  \<^verbatim>\<open>AppendMessage\<close> returns \<^verbatim>\<open>trigger_pumping\<close>, whether the queue was empty before
  the push, and the queue after it.
\<close>

definition AppendMessage ::
  "'a MessageQueue \<Rightarrow> 'a \<Rightarrow> int \<Rightarrow> StringView \<Rightarrow> bool \<times> 'a MessageQueue" where
  "AppendMessage queue action sid buffer = (queue = [], queue @ [(action, sid, buffer)])"

definition SwapBehindLock ::
  "'a MessageQueue \<Rightarrow> 'a MessageQueue \<Rightarrow> 'a MessageQueue \<times> 'a MessageQueue" where
  "SwapBehindLock vector1 vector2 = (vector2, vector1)"

text \<open>
  \<^verbatim>\<open>Write\<close>: the value of \<^verbatim>\<open>AppendMessage\<close> is discarded and \<^verbatim>\<open>uv_async_send\<close> is
  called on \<^verbatim>\<open>thread_req_\<close> in every case.
\<close>

definition Write :: "TransportAction \<Rightarrow> int \<Rightarrow> StringView \<Rightarrow> InspectorIo \<Rightarrow> InspectorIo" where
  "Write action sid inspector_message io =
     (let (trigger_pumping, queue) =
            AppendMessage (outgoing_message_queue io) action sid inspector_message
      in io\<lparr>outgoing_message_queue := queue, thread_req_sends := thread_req_sends io + 1\<rparr>)"

text \<open>
  \<^verbatim>\<open>PostIncomingMessage\<close>. \<open>Utf8ToStringView\<close> is the conversion done by the Unicode
  library. When \<^verbatim>\<open>AppendMessage\<close> returns true a task is posted, an interrupt is
  requested and \<^verbatim>\<open>main_thread_req_\<close> is signalled; the condition variable is broadcast
  in every case.
\<close>

definition PostIncomingMessage ::
  "(string \<Rightarrow> StringView) \<Rightarrow> InspectorAction \<Rightarrow> int \<Rightarrow> string \<Rightarrow> InspectorIo \<Rightarrow> InspectorIo" where
  "PostIncomingMessage Utf8ToStringView action sid message io =
     (let (trigger_pumping, queue) =
            AppendMessage (incoming_message_queue io) action sid (Utf8ToStringView message);
          io1 = io\<lparr>incoming_message_queue := queue\<rparr>;
          io2 = (if trigger_pumping
                 then io1\<lparr>foreground_tasks := foreground_tasks io1 + 1,
                          interrupts := interrupts io1 + 1,
                          main_thread_req_sends := main_thread_req_sends io1 + 1\<rparr>
                 else io1)
      in io2\<lparr>broadcasts := broadcasts io2 + 1\<rparr>)"

subsection \<open>The dispatch loop of the runtime thread\<close>

text \<open>
  \<^verbatim>\<open>Attach\<close>. \<open>agent_Connect\<close> gives the pointer that \<^verbatim>\<open>Agent::Connect\<close> returns for
  the delegate of a session id.
\<close>

definition Attach ::
  "(int \<Rightarrow> InspectorSession option) \<Rightarrow> int \<Rightarrow> InspectorIo \<Rightarrow> TransportAction \<times> InspectorIo" where
  "Attach agent_Connect sid io =
     (let io1 = io\<lparr>stderr := stderr io @ [''Debugger attached.'' @ [CHR 0x0A]]\<rparr>;
          io2 = io1\<lparr>agent_calls := agent_calls io1 @ [Connect sid]\<rparr>
      in (kAcceptSession,
          io2\<lparr>sessions := AList.update sid (agent_Connect sid) (sessions io2)\<rparr>))"

text \<open>
  The body of the \<^verbatim>\<open>switch\<close> in \<^verbatim>\<open>DispatchMessages\<close>, for one task taken from the
  front of \<^verbatim>\<open>dispatching_message_queue_\<close>.
\<close>

definition dispatch_task ::
  "(int \<Rightarrow> InspectorSession option) \<Rightarrow> InspectorAction \<times> int \<times> StringView \<Rightarrow>
   InspectorIo \<Rightarrow> InspectorIo" where
  "dispatch_task agent_Connect task io =
     (case task of (action, sid, message) \<Rightarrow>
        (case action of
           InspectorAction.kStartSession \<Rightarrow>
             (let (a, io1) = Attach agent_Connect sid io in Write a sid [] io1)
         | InspectorAction.kStartSessionUnconditionally \<Rightarrow>
             snd (Attach agent_Connect sid io)
         | InspectorAction.kEndSession \<Rightarrow>
             (let io1 = io\<lparr>sessions := AList.delete sid (sessions io)\<rparr>
              in if sessions io1 \<noteq> [] then io1
                 else if state io1 = kShutDown then io1\<lparr>state := kDone\<rparr>
                 else io1\<lparr>state := kAccepting\<rparr>)
         | InspectorAction.kSendMessage \<Rightarrow>
             (case map_of (sessions io) sid of
                Some (Some session) \<Rightarrow>
                  io\<lparr>agent_calls := agent_calls io @ [Dispatch session message]\<rparr>
              | _ \<Rightarrow> io)))"

text \<open>
  The inner \<^verbatim>\<open>while\<close> loop: pop the front task, process it, until the queue is empty.
\<close>

function drain_dispatching_queue ::
  "(int \<Rightarrow> InspectorSession option) \<Rightarrow> InspectorIo \<Rightarrow> InspectorIo" where
  "drain_dispatching_queue agent_Connect io =
     (case dispatching_message_queue io of
        [] \<Rightarrow> io
      | task # rest \<Rightarrow>
          drain_dispatching_queue agent_Connect
            (dispatch_task agent_Connect task (io\<lparr>dispatching_message_queue := rest\<rparr>)))"
  by pat_completeness auto
termination
proof (relation "measure (\<lambda>(c, io). length (dispatching_message_queue io))")
  show "wf (measure (\<lambda>(c, io). length (dispatching_message_queue io)))"
    by simp
next
  fix agent_Connect :: "int \<Rightarrow> InspectorSession option"
  fix io :: InspectorIo and task rest
  assume q: "dispatching_message_queue io = task # rest"
  have "dispatching_message_queue
          (dispatch_task agent_Connect task (io\<lparr>dispatching_message_queue := rest\<rparr>)) = rest"
    by (simp add: dispatch_task_def Attach_def Write_def AppendMessage_def Let_def
          split: prod.split InspectorAction.split option.split)
  with q show "((agent_Connect,
           dispatch_task agent_Connect task (io\<lparr>dispatching_message_queue := rest\<rparr>)),
          (agent_Connect, io))
        \<in> measure (\<lambda>(c, io). length (dispatching_message_queue io))"
    by simp
qed

declare drain_dispatching_queue.simps [simp del]
declare hex_digits.simps [simp del]

text \<open>
  The \<^verbatim>\<open>do ... while (had_messages)\<close> loop. No other thread appends while it runs, so
  the second or third round finds both queues empty and leaves.
\<close>

function dispatch_loop ::
  "(int \<Rightarrow> InspectorSession option) \<Rightarrow> InspectorIo \<Rightarrow> InspectorIo" where
  "dispatch_loop agent_Connect io =
     (let io1 = (if dispatching_message_queue io = []
                 then (let (vector1, vector2) =
                             SwapBehindLock (incoming_message_queue io)
                               (dispatching_message_queue io)
                       in io\<lparr>incoming_message_queue := vector1,
                             dispatching_message_queue := vector2\<rparr>)
                 else io);
          had_messages = (dispatching_message_queue io1 \<noteq> []);
          io2 = drain_dispatching_queue agent_Connect io1
      in if had_messages then dispatch_loop agent_Connect io2 else io2)"
  by pat_completeness auto
termination
proof -
  have drained: "dispatching_message_queue (drain_dispatching_queue c io) = [] \<and>
      incoming_message_queue (drain_dispatching_queue c io) = incoming_message_queue io"
    for c io
  proof (induction c io rule: drain_dispatching_queue.induct)
    case (1 c io)
    show ?case
    proof (cases "dispatching_message_queue io")
      case Nil
      then show ?thesis by (simp add: drain_dispatching_queue.simps[of c io])
    next
      case (Cons task rest)
      have "incoming_message_queue
            (dispatch_task c task (io\<lparr>dispatching_message_queue := rest\<rparr>)) =
            incoming_message_queue io"
        by (simp add: dispatch_task_def Attach_def Write_def AppendMessage_def Let_def
            split: prod.split InspectorAction.split option.split)
      with Cons 1 show ?thesis by (simp add: drain_dispatching_queue.simps[of c io])
    qed
  qed
  show ?thesis
    by (relation "measure (\<lambda>(c, io). length (incoming_message_queue io) +
                    length (dispatching_message_queue io))")
       (auto simp: drained SwapBehindLock_def split: if_splits)
qed

declare dispatch_loop.simps [simp del]

text \<open>\<^verbatim>\<open>DispatchMessages\<close>: the loop, behind the guard against re-entry.\<close>

definition DispatchMessages ::
  "(int \<Rightarrow> InspectorSession option) \<Rightarrow> InspectorIo \<Rightarrow> InspectorIo" where
  "DispatchMessages agent_Connect io =
     (if dispatching_messages io then io
      else (dispatch_loop agent_Connect (io\<lparr>dispatching_messages := True\<rparr>))
             \<lparr>dispatching_messages := False\<rparr>)"

subsection \<open>Start, stop and disconnect\<close>

text \<open>
  What \<^verbatim>\<open>ThreadMain\<close> has done to the bridge when the runtime thread gets past
  \<^verbatim>\<open>uv_sem_wait\<close>. The argument is the outcome of \<^verbatim>\<open>server.Start()\<close>: \<open>None\<close>
  when it returns false, \<open>Some p\<close> when the server listens on port \<open>p\<close>.
\<close>

definition ThreadMain :: "int option \<Rightarrow> InspectorIo \<Rightarrow> InspectorIo" where
  "ThreadMain server io =
     (case server of None \<Rightarrow> io\<lparr>state := kError\<rparr> | Some p \<Rightarrow> io\<lparr>port := p\<rparr>)"

text \<open>
  \<^verbatim>\<open>Start\<close>. \<open>thread_created\<close> says whether \<^verbatim>\<open>uv_thread_create\<close> returned 0. The
  messages that the I/O thread has posted while the runtime thread waited are those in
  the incoming queue of the bridge.
\<close>

definition Start ::
  "(int \<Rightarrow> InspectorSession option) \<Rightarrow> bool \<Rightarrow> int option \<Rightarrow> InspectorIo \<Rightarrow>
   error + bool \<times> InspectorIo" where
  "Start agent_Connect thread_created server io =
     (if state io \<noteq> kNew then Inl CheckFailed
      else if \<not> thread_created then Inl CheckFailed
      else
        (let io1 = ThreadMain server io
         in if state io1 = kError then Inr (False, io1)
            else
              (let io2 = io1\<lparr>state := kAccepting\<rparr>
               in if wait_for_connect io2
                  then Inr (True, DispatchMessages agent_Connect io2)
                  else Inr (True, io2))))"

text \<open>
  \<^verbatim>\<open>Stop\<close>. \<open>err\<close> is the value of \<^verbatim>\<open>uv_thread_join\<close>. The messages that the I/O
  thread posts while it shuts down are those in the incoming queue of the bridge.
\<close>

definition Stop ::
  "(int \<Rightarrow> InspectorSession option) \<Rightarrow> int \<Rightarrow> InspectorIo \<Rightarrow> error + InspectorIo" where
  "Stop agent_Connect err io =
     (if sessions io = [] \<and> state io \<noteq> kAccepting then Inl CheckFailed
      else
        (let io1 = Write kKill 0 [] io
         in if err \<noteq> 0 then Inl CheckFailed
            else
              (let io2 = io1\<lparr>thread_joins := thread_joins io1 + 1\<rparr>;
                   io3 = io2\<lparr>state := kShutDown\<rparr>
               in Inr (DispatchMessages agent_Connect io3))))"

definition WaitForDisconnect :: "InspectorIo \<Rightarrow> InspectorIo" where
  "WaitForDisconnect io =
     (let io1 = (if state io = kAccepting then io\<lparr>state := kDone\<rparr> else io)
      in if sessions io1 \<noteq> []
         then (let io2 = Write kStop 0 [] (io1\<lparr>state := kShutDown\<rparr>)
               in io2\<lparr>stderr := stderr io2 @
                        [''Waiting for the debugger to disconnect...'' @ [CHR 0x0A]]\<rparr>)
         else io1)"

subsection \<open>The transport delegate\<close>

text \<open>
  \<^verbatim>\<open>std::string::find\<close> from position 0: the first position at which the needle
  occurs, \<open>None\<close> for \<^verbatim>\<open>npos\<close>.
\<close>

fun string_find_from :: "string \<Rightarrow> string \<Rightarrow> nat \<Rightarrow> nat option" where
  "string_find_from [] needle pos = (if needle = [] then Some pos else None)"
| "string_find_from (c # rest) needle pos =
     (if prefix needle (c # rest) then Some pos
      else string_find_from rest needle (Suc pos))"

definition string_find :: "string \<Rightarrow> string \<Rightarrow> nat option" where
  "string_find s needle = string_find_from s needle 0"

record InspectorIoDelegate =
  session_id :: int
  waiting :: bool

text \<open>
  Modelled from the spec: \<^verbatim>\<open>InspectorIo::ResumeStartup\<close> is defined in
  \<^verbatim>\<open>inspector_io.h\<close>, which is not among the sources. The spec names the call
  (\<open>resume_startup()\<close>) and says nothing of its body, so the call is counted.
\<close>

definition ResumeStartup :: "InspectorIo \<Rightarrow> InspectorIo" where
  "ResumeStartup io = io\<lparr>resume_startups := resume_startups io + 1\<rparr>"

text \<open>
  \<^verbatim>\<open>InspectorIoDelegate::MessageReceived\<close>, on the delegate and the bridge it points
  to. The needle is the method name between its two double quotes.
\<close>

definition MessageReceived ::
  "(string \<Rightarrow> StringView) \<Rightarrow> int \<Rightarrow> string \<Rightarrow> InspectorIoDelegate \<times> InspectorIo \<Rightarrow>
   InspectorIoDelegate \<times> InspectorIo" where
  "MessageReceived Utf8ToStringView sid message dio =
     (case dio of (d, io) \<Rightarrow>
        (let (d1, io1) =
               (if waiting d
                then (if string_find message ''\"Runtime.runIfWaitingForDebugger\"'' \<noteq> None
                      then (d\<lparr>waiting := False\<rparr>, ResumeStartup io)
                      else (d, io))
                else (d, io))
         in (d1, PostIncomingMessage Utf8ToStringView InspectorAction.kSendMessage sid
                   message io1)))"

text \<open>The messages of one delegate, delivered in order, each with its session id.\<close>

fun receive_messages ::
  "(string \<Rightarrow> StringView) \<Rightarrow> (int \<times> string) list \<Rightarrow> InspectorIoDelegate \<times> InspectorIo \<Rightarrow>
   InspectorIoDelegate \<times> InspectorIo" where
  "receive_messages Utf8ToStringView [] dio = dio"
| "receive_messages Utf8ToStringView (sm # rest) dio =
     receive_messages Utf8ToStringView rest
       (MessageReceived Utf8ToStringView (fst sm) (snd sm) dio)"

subsection \<open>Sequences of calls\<close>

text \<open>
  A call on the bridge: a push onto the incoming queue by the transport delegate, a push
  onto the outgoing queue, or a run of the dispatch loop on the runtime thread.
\<close>

datatype bridge_call =
  CallPostIncomingMessage InspectorAction int string
| CallWrite TransportAction int StringView
| CallDispatchMessages

fun run_call ::
  "(int \<Rightarrow> InspectorSession option) \<Rightarrow> (string \<Rightarrow> StringView) \<Rightarrow> bridge_call \<Rightarrow>
   InspectorIo \<Rightarrow> InspectorIo" where
  "run_call agent_Connect Utf8ToStringView (CallPostIncomingMessage action sid message) io =
     PostIncomingMessage Utf8ToStringView action sid message io"
| "run_call agent_Connect Utf8ToStringView (CallWrite action sid view) io =
     Write action sid view io"
| "run_call agent_Connect Utf8ToStringView CallDispatchMessages io =
     DispatchMessages agent_Connect io"

fun run_calls ::
  "(int \<Rightarrow> InspectorSession option) \<Rightarrow> (string \<Rightarrow> StringView) \<Rightarrow> bridge_call list \<Rightarrow>
   InspectorIo \<Rightarrow> InspectorIo" where
  "run_calls agent_Connect Utf8ToStringView [] io = io"
| "run_calls agent_Connect Utf8ToStringView (c # cs) io =
     run_calls agent_Connect Utf8ToStringView cs
       (run_call agent_Connect Utf8ToStringView c io)"

text \<open>
  The number of pushes onto the incoming queue, in a sequence of calls, that find the
  queue empty at entry.
\<close>

fun incoming_appends_on_empty ::
  "(int \<Rightarrow> InspectorSession option) \<Rightarrow> (string \<Rightarrow> StringView) \<Rightarrow> bridge_call list \<Rightarrow>
   InspectorIo \<Rightarrow> nat" where
  "incoming_appends_on_empty agent_Connect Utf8ToStringView [] io = 0"
| "incoming_appends_on_empty agent_Connect Utf8ToStringView (c # cs) io =
     (case c of
        CallPostIncomingMessage action sid message \<Rightarrow>
          (if incoming_message_queue io = [] then 1 else 0)
      | _ \<Rightarrow> 0) +
     incoming_appends_on_empty agent_Connect Utf8ToStringView cs
       (run_call agent_Connect Utf8ToStringView c io)"

text \<open>
  The tasks a run of the dispatch loop processes, in order: what is left in
  \<^verbatim>\<open>dispatching_message_queue_\<close>, then \<^verbatim>\<open>incoming_message_queue_\<close>.
\<close>

definition pending_messages :: "InspectorIo \<Rightarrow> InspectorAction MessageQueue" where
  "pending_messages io = dispatching_message_queue io @ incoming_message_queue io"

text \<open>The tasks that call \<^verbatim>\<open>Attach\<close>.\<close>

definition attaches :: "InspectorAction \<times> int \<times> StringView \<Rightarrow> bool" where
  "attaches task =
     (fst task = InspectorAction.kStartSession \<or>
      fst task = InspectorAction.kStartSessionUnconditionally)"

text \<open>
  Whether, while the tasks are processed in order, some \<^verbatim>\<open>kEndSession\<close> task leaves
  the session table empty.
\<close>

fun empties_table ::
  "(int \<Rightarrow> InspectorSession option) \<Rightarrow> InspectorAction MessageQueue \<Rightarrow> InspectorIo \<Rightarrow> bool"
  where
  "empties_table agent_Connect [] io = False"
| "empties_table agent_Connect (task # rest) io =
     ((fst task = InspectorAction.kEndSession \<and>
       sessions (dispatch_task agent_Connect task io) = []) \<or>
      empties_table agent_Connect rest (dispatch_task agent_Connect task io))"

text \<open>Invariant 3 of the data model: no sessions while the state is \<^verbatim>\<open>kAccepting\<close>.\<close>

definition accepting_implies_no_sessions :: "InspectorIo \<Rightarrow> bool" where
  "accepting_implies_no_sessions io = (state io = kAccepting \<longrightarrow> sessions io = [])"

section \<open>Properties\<close>

subsection \<open>The shape of the target identifier\<close>

lemma is_lower_hex_hex_digit: "d < 16 \<Longrightarrow> is_lower_hex (hex_digit d)"
proof -
  assume "d < 16"
  then have "d = 0 \<or> d = 1 \<or> d = 2 \<or> d = 3 \<or> d = 4 \<or> d = 5 \<or> d = 6 \<or> d = 7 \<or>
      d = 8 \<or> d = 9 \<or> d = 10 \<or> d = 11 \<or> d = 12 \<or> d = 13 \<or> d = 14 \<or> d = 15"
    by presburger
  then show ?thesis
    by (elim disjE) (simp_all add: is_lower_hex_def hex_digit_def)
qed

lemma hex_digits_lt_16: "n < 16 \<Longrightarrow> hex_digits n = [hex_digit n]"
  by (simp add: hex_digits.simps[of n])

lemma hex_digits_ge_16:
  "16 \<le> n \<Longrightarrow> hex_digits n = hex_digits (n div 16) @ [hex_digit (n mod 16)]"
  by (simp add: hex_digits.simps[of n])

lemma fmt_04x_nibbles:
  assumes "n < 65536"
  shows "fmt_04x n = [hex_digit (n div 4096), hex_digit (n div 256 mod 16),
                      hex_digit (n div 16 mod 16), hex_digit (n mod 16)]"
proof -
  have z: "hex_digit 0 = CHR ''0''" by (simp add: hex_digit_def)
  have r: "replicate 3 c = [c, c, c]" "replicate 2 c = [c, c]" for c :: char
    by (simp_all add: numeral_eq_Suc)
  consider "n < 16" | "16 \<le> n" "n < 256" | "256 \<le> n" "n < 4096" | "4096 \<le> n"
    by linarith
  then show ?thesis
  proof cases
    case 1
    then show ?thesis by (simp add: fmt_04x_def hex_digits_lt_16 z r)
  next
    case 2
    then have a: "n div 16 < 16" by simp
    from 2 have b: "n div 256 = 0" "n div 4096 = 0" by simp_all
    from 2 a show ?thesis
      by (simp add: fmt_04x_def hex_digits_ge_16 hex_digits_lt_16 z r b)
  next
    case 3
    then have a: "16 \<le> n" "16 \<le> n div 16" "n div 16 div 16 < 16" by simp_all
    have c: "n div 16 div 16 = n div 256" by (simp add: div_mult2_eq[symmetric])
    from 3 have b: "n div 4096 = 0" by simp
    have d: "n div 256 mod 16 = n div 256" using 3 by simp
    from 3 a show ?thesis
      by (simp add: fmt_04x_def hex_digits_ge_16 hex_digits_lt_16 z r b c d)
  next
    case 4
    with assms have a: "16 \<le> n" "16 \<le> n div 16" "16 \<le> n div 16 div 16"
      "n div 16 div 16 div 16 < 16" by simp_all
    have c: "n div 16 div 16 = n div 256" "n div 16 div 16 div 16 = n div 4096"
      "n div 256 div 16 = n div 4096"
      by (simp_all add: div_mult2_eq[symmetric])
    from a show ?thesis
      by (simp add: fmt_04x_def hex_digits_ge_16 hex_digits_lt_16 c)
  qed
qed


lemma fmt_04x_shape:
  assumes "n < 65536"
  obtains a b c d where "fmt_04x n = [a, b, c, d]" "is_lower_hex a" "is_lower_hex b"
    "is_lower_hex c" "is_lower_hex d" "a = hex_digit (n div 4096)"
proof -
  from assms have "n div 4096 < 16" by simp
  then have "is_lower_hex (hex_digit (n div 4096))" by (rule is_lower_hex_hex_digit)
  moreover have "is_lower_hex (hex_digit (n div 256 mod 16))"
    "is_lower_hex (hex_digit (n div 16 mod 16))" "is_lower_hex (hex_digit (n mod 16))"
    by (simp_all add: is_lower_hex_hex_digit)
  ultimately show thesis
    using fmt_04x_nibbles[OF assms] that by blast
qed

lemma and_0fff: "(n::nat) AND 0x0fff = n mod 4096"
proof -
  have m: "(mask 12 :: nat) = 0x0fff" by (simp add: mask_eq_exp_minus_1)
  have "n AND mask 12 = take_bit 12 n" by (simp only: take_bit_eq_mask)
  also have "\<dots> = n mod 2 ^ 12" by (simp only: take_bit_eq_mod)
  finally show ?thesis unfolding m by simp
qed

lemma and_3fff: "(n::nat) AND 0x3fff = n mod 16384"
proof -
  have m: "(mask 14 :: nat) = 0x3fff" by (simp add: mask_eq_exp_minus_1)
  have "n AND mask 14 = take_bit 14 n" by (simp only: take_bit_eq_mask)
  also have "\<dots> = n mod 2 ^ 14" by (simp only: take_bit_eq_mod)
  finally show ?thesis unfolding m by simp
qed

lemma or_4000: assumes "(m::nat) < 4096" shows "m OR 0x4000 = m + 0x4000"
proof -
  have "m div 2 ^ 14 = 0" using assms by simp
  then have "\<not> bit m 14" by (simp only: bit_iff_odd) simp
  then have "m AND 2 ^ 14 = 0" by (rule iffD2[OF and_exp_eq_0_iff_not_bit])
  then have "m + 2 ^ 14 = m OR 2 ^ 14" by (rule disjunctive_add_eq_or)
  then show ?thesis by simp
qed

lemma or_8000: assumes "(m::nat) < 16384" shows "m OR 0x8000 = m + 0x8000"
proof -
  have "m div 2 ^ 15 = 0" using assms by simp
  then have "\<not> bit m 15" by (simp only: bit_iff_odd) simp
  then have "m AND 2 ^ 15 = 0" by (rule iffD2[OF and_exp_eq_0_iff_not_bit])
  then have "m + 2 ^ 15 = m OR 2 ^ 15" by (rule disjunctive_add_eq_or)
  then show ?thesis by simp
qed

lemma version_field:
  "(n AND 0x0fff) OR 0x4000 < (65536::nat) \<and> ((n AND 0x0fff) OR 0x4000) div 4096 = 4"
proof -
  define m where "m = n mod 4096"
  have b: "m < 4096" by (simp add: m_def)
  then have "(n AND 0x0fff) OR 0x4000 = m + 0x4000"
    unfolding m_def by (simp only: and_0fff or_4000)
  moreover from b have "m + 0x4000 < 65536 \<and> (m + 0x4000) div 4096 = 4"
    by simp
  ultimately show ?thesis by simp
qed

lemma variant_field:
  "(n AND 0x3fff) OR 0x8000 < (65536::nat) \<and>
   ((n AND 0x3fff) OR 0x8000) div 4096 \<in> {8, 9, 10, 11}"
proof -
  define m where "m = n mod 16384"
  have b: "m < 16384" by (simp add: m_def)
  then have e: "(n AND 0x3fff) OR 0x8000 = m + 0x8000"
    unfolding m_def by (simp only: and_3fff or_8000)
  have "8 \<le> (m + 0x8000) div 4096" "(m + 0x8000) div 4096 < 12"
    using b by simp_all
  then have "(m + 0x8000) div 4096 \<in> {8, 9, 10, 11}" by auto
  with e b show ?thesis by simp
qed

lemma unat_u16: "unat (w :: 16 word) < 65536"
  using unsigned_less[of w, where 'a=nat] by simp

text \<open>
  C9. For every eight 16-bit words that the entropy source supplies, \<^verbatim>\<open>GenerateID\<close>
  returns a string of the canonical version-4 shape: 36 characters, lowercase hexadecimal
  digits in groups of 8, 4, 4, 4 and 12 separated by hyphens, the first digit of the
  third group \<open>4\<close> and the first digit of the fourth group one of \<open>8\<close>, \<open>9\<close>,
  \<open>a\<close>, \<open>b\<close>.
\<close>

theorem GenerateID_uuid_v4_shape:
  assumes "length buffer = 8"
  shows "\<exists>s. GenerateID (Some buffer) = Inr s \<and> uuid_v4_shape s"
proof -
  obtain a0 b0 c0 d0 where f0: "fmt_04x (unat (buffer ! 0)) = [a0, b0, c0, d0]"
    and h0: "is_lower_hex a0" "is_lower_hex b0" "is_lower_hex c0" "is_lower_hex d0"
    using fmt_04x_shape[OF unat_u16] by metis
  obtain a1 b1 c1 d1 where f1: "fmt_04x (unat (buffer ! 1)) = [a1, b1, c1, d1]"
    and h1: "is_lower_hex a1" "is_lower_hex b1" "is_lower_hex c1" "is_lower_hex d1"
    using fmt_04x_shape[OF unat_u16] by metis
  obtain a2 b2 c2 d2 where f2: "fmt_04x (unat (buffer ! 2)) = [a2, b2, c2, d2]"
    and h2: "is_lower_hex a2" "is_lower_hex b2" "is_lower_hex c2" "is_lower_hex d2"
    using fmt_04x_shape[OF unat_u16] by metis
  obtain a3 b3 c3 d3 where
    f3: "fmt_04x ((unat (buffer ! 3) AND 0x0fff) OR 0x4000) = [a3, b3, c3, d3]"
    and h3: "is_lower_hex b3" "is_lower_hex c3" "is_lower_hex d3"
    and v3: "a3 = hex_digit (((unat (buffer ! 3) AND 0x0fff) OR 0x4000) div 4096)"
    using fmt_04x_shape[OF conjunct1[OF version_field]] by metis
  obtain a4 b4 c4 d4 where
    f4: "fmt_04x ((unat (buffer ! 4) AND 0x3fff) OR 0x8000) = [a4, b4, c4, d4]"
    and h4: "is_lower_hex b4" "is_lower_hex c4" "is_lower_hex d4"
    and v4: "a4 = hex_digit (((unat (buffer ! 4) AND 0x3fff) OR 0x8000) div 4096)"
    using fmt_04x_shape[OF conjunct1[OF variant_field]] by metis
  obtain a5 b5 c5 d5 where f5: "fmt_04x (unat (buffer ! 5)) = [a5, b5, c5, d5]"
    and h5: "is_lower_hex a5" "is_lower_hex b5" "is_lower_hex c5" "is_lower_hex d5"
    using fmt_04x_shape[OF unat_u16] by metis
  obtain a6 b6 c6 d6 where f6: "fmt_04x (unat (buffer ! 6)) = [a6, b6, c6, d6]"
    and h6: "is_lower_hex a6" "is_lower_hex b6" "is_lower_hex c6" "is_lower_hex d6"
    using fmt_04x_shape[OF unat_u16] by metis
  obtain a7 b7 c7 d7 where f7: "fmt_04x (unat (buffer ! 7)) = [a7, b7, c7, d7]"
    and h7: "is_lower_hex a7" "is_lower_hex b7" "is_lower_hex c7" "is_lower_hex d7"
    using fmt_04x_shape[OF unat_u16] by metis
  have a3: "a3 = CHR ''4''"
    using v3 conjunct2[OF version_field, of "unat (buffer ! 3)"] by (simp add: hex_digit_def)
  have a4: "a4 \<in> set ''89ab''"
    using v4 conjunct2[OF variant_field, of "unat (buffer ! 4)"]
    by (auto simp: hex_digit_def)
  have "GenerateID (Some buffer) =
      Inr [a0, b0, c0, d0, a1, b1, c1, d1, CHR ''-'', a2, b2, c2, d2, CHR ''-'',
           a3, b3, c3, d3, CHR ''-'', a4, b4, c4, d4, CHR ''-'',
           a5, b5, c5, d5, a6, b6, c6, d6, a7, b7, c7, d7]"
    unfolding GenerateID_def option.case f0 f1 f2 f3 f4 f5 f6 f7 by simp
  moreover have "uuid_v4_shape
      [a0, b0, c0, d0, a1, b1, c1, d1, CHR ''-'', a2, b2, c2, d2, CHR ''-'',
           a3, b3, c3, d3, CHR ''-'', a4, b4, c4, d4, CHR ''-'',
           a5, b5, c5, d5, a6, b6, c6, d6, a7, b7, c7, d7]"
    using h0 h1 h2 h3 h4 h5 h6 h7 a3 a4 by (simp add: uuid_v4_shape_def)
  ultimately show ?thesis by blast
qed

theorem GenerateID_uuid_v4_shape_witness:
  "length [0x1234, 0xabcd, 0, 0xffff, 0xffff, 1, 2, 0xfedc :: 16 word] = 8 \<and>
   GenerateID (Some [0x1234, 0xabcd, 0, 0xffff, 0xffff, 1, 2, 0xfedc]) =
     Inr ''1234abcd-0000-4fff-bfff-00010002fedc'' \<and>
   uuid_v4_shape ''1234abcd-0000-4fff-bfff-00010002fedc''"
proof -
  have r: "replicate 3 c = [c, c, c]" "replicate 2 c = [c, c]" for c :: char
    by (simp_all add: numeral_eq_Suc)
  have v: "GenerateID (Some [0x1234, 0xabcd, 0, 0xffff, 0xffff, 1, 2, 0xfedc]) =
     Inr ''1234abcd-0000-4fff-bfff-00010002fedc''"
    by (simp add: GenerateID_def fmt_04x_def hex_digits.simps hex_digit_def r)
  have l: "length [0x1234, 0xabcd, 0, 0xffff, 0xffff, 1, 2, 0xfedc :: 16 word] = 8"
    by simp
  from GenerateID_uuid_v4_shape[OF l] v l show ?thesis by simp
qed

subsection \<open>The dispatch loop processes the pending messages in order\<close>

text \<open>
  The tasks of \<^verbatim>\<open>dispatching_message_queue_\<close> are processed first, then those of
  \<^verbatim>\<open>incoming_message_queue_\<close>; both queues are empty afterwards.
\<close>

lemma dispatch_task_dq_commute:
  "dispatch_task c t (io\<lparr>dispatching_message_queue := q\<rparr>) =
   (dispatch_task c t io)\<lparr>dispatching_message_queue := q\<rparr>"
  by (simp add: dispatch_task_def Attach_def Write_def AppendMessage_def Let_def
      split: prod.split InspectorAction.split option.split)

lemma dispatch_task_inq_commute:
  "dispatch_task c t (io\<lparr>incoming_message_queue := q\<rparr>) =
   (dispatch_task c t io)\<lparr>incoming_message_queue := q\<rparr>"
  by (simp add: dispatch_task_def Attach_def Write_def AppendMessage_def Let_def
      split: prod.split InspectorAction.split option.split)

lemma dispatch_task_flag_commute:
  "dispatch_task c t (io\<lparr>dispatching_messages := b\<rparr>) =
   (dispatch_task c t io)\<lparr>dispatching_messages := b\<rparr>"
  by (simp add: dispatch_task_def Attach_def Write_def AppendMessage_def Let_def
      split: prod.split InspectorAction.split option.split)

lemma fold_dispatch_dq_commute:
  "fold (dispatch_task c) ts (io\<lparr>dispatching_message_queue := q\<rparr>) =
   (fold (dispatch_task c) ts io)\<lparr>dispatching_message_queue := q\<rparr>"
  by (induction ts arbitrary: io) (simp_all add: dispatch_task_dq_commute)

lemma fold_dispatch_inq_commute:
  "fold (dispatch_task c) ts (io\<lparr>incoming_message_queue := q\<rparr>) =
   (fold (dispatch_task c) ts io)\<lparr>incoming_message_queue := q\<rparr>"
  by (induction ts arbitrary: io) (simp_all add: dispatch_task_inq_commute)

lemma fold_dispatch_flag_commute:
  "fold (dispatch_task c) ts (io\<lparr>dispatching_messages := b\<rparr>) =
   (fold (dispatch_task c) ts io)\<lparr>dispatching_messages := b\<rparr>"
  by (induction ts arbitrary: io) (simp_all add: dispatch_task_flag_commute)

lemma drain_fold_aux:
  "dispatching_message_queue io = ts \<Longrightarrow>
   drain_dispatching_queue c io =
   (fold (dispatch_task c) ts io)\<lparr>dispatching_message_queue := []\<rparr>"
proof (induction ts arbitrary: io)
  case Nil
  then have "io\<lparr>dispatching_message_queue := []\<rparr> = io" by simp
  with Nil show ?case by (simp add: drain_dispatching_queue.simps[of c io])
next
  case (Cons t ts)
  have "dispatching_message_queue
          (dispatch_task c t (io\<lparr>dispatching_message_queue := ts\<rparr>)) = ts"
    by (simp add: dispatch_task_dq_commute)
  from Cons.IH[OF this] Cons.prems show ?case
    by (simp add: drain_dispatching_queue.simps[of c io] dispatch_task_dq_commute
        fold_dispatch_dq_commute)
qed

lemma drain_fold:
  "drain_dispatching_queue c io =
   (fold (dispatch_task c) (dispatching_message_queue io) io)\<lparr>dispatching_message_queue := []\<rparr>"
  by (rule drain_fold_aux) simp

lemma dispatch_task_queues:
  "dispatching_message_queue (dispatch_task c t io) = dispatching_message_queue io"
  "incoming_message_queue (dispatch_task c t io) = incoming_message_queue io"
  "dispatching_messages (dispatch_task c t io) = dispatching_messages io"
  by (simp_all add: dispatch_task_def Attach_def Write_def AppendMessage_def Let_def
      split: prod.split InspectorAction.split option.split)

lemma fold_dispatch_queues:
  "dispatching_message_queue (fold (dispatch_task c) ts io) = dispatching_message_queue io"
  "incoming_message_queue (fold (dispatch_task c) ts io) = incoming_message_queue io"
  "dispatching_messages (fold (dispatch_task c) ts io) = dispatching_messages io"
  by (induction ts arbitrary: io) (simp_all add: dispatch_task_queues)

lemma flag_update_same:
  "dispatching_messages r = b \<Longrightarrow> r\<lparr>dispatching_messages := b\<rparr> = (r :: InspectorIo)"
  by auto

lemma dispatch_loop_fold:
  "dispatch_loop c io =
   (fold (dispatch_task c) (dispatching_message_queue io @ incoming_message_queue io) io)
     \<lparr>incoming_message_queue := [], dispatching_message_queue := []\<rparr>"
proof (induction c io rule: dispatch_loop.induct)
  case (1 c io)
  show ?case
  proof (cases "dispatching_message_queue io = []")
    case dq: True
    show ?thesis
    proof (cases "incoming_message_queue io = []")
      case True
      with dq have "io\<lparr>incoming_message_queue := [], dispatching_message_queue := []\<rparr> = io"
        by simp
      with dq True show ?thesis
        by (simp add: dispatch_loop.simps[of c io] SwapBehindLock_def drain_fold)
    next
      case False
      let ?io1 = "io\<lparr>incoming_message_queue := [],
                     dispatching_message_queue := incoming_message_queue io\<rparr>"
      have "dispatch_loop c io = dispatch_loop c (drain_dispatching_queue c ?io1)"
        using dq False by (simp add: dispatch_loop.simps[of c io] SwapBehindLock_def)
      also have "\<dots> = (fold (dispatch_task c)
           (dispatching_message_queue (drain_dispatching_queue c ?io1) @
            incoming_message_queue (drain_dispatching_queue c ?io1))
           (drain_dispatching_queue c ?io1))
         \<lparr>incoming_message_queue := [], dispatching_message_queue := []\<rparr>"
        using dq False by (intro 1) (simp_all add: SwapBehindLock_def)
      finally show ?thesis using dq
        by (simp add: drain_fold fold_dispatch_queues fold_dispatch_dq_commute
            fold_dispatch_inq_commute)
    qed
  next
    case False
    have "dispatch_loop c io = dispatch_loop c (drain_dispatching_queue c io)"
      using False by (simp add: dispatch_loop.simps[of c io])
    also have "\<dots> = (fold (dispatch_task c)
           (dispatching_message_queue (drain_dispatching_queue c io) @
            incoming_message_queue (drain_dispatching_queue c io))
           (drain_dispatching_queue c io))
         \<lparr>incoming_message_queue := [], dispatching_message_queue := []\<rparr>"
      using False by (intro 1) simp_all
    finally show ?thesis
      by (simp add: drain_fold fold_dispatch_queues fold_dispatch_dq_commute
            fold_dispatch_inq_commute)
  qed
qed

lemma DispatchMessages_fold:
  assumes "\<not> dispatching_messages io"
  shows "DispatchMessages c io =
   (fold (dispatch_task c) (dispatching_message_queue io @ incoming_message_queue io) io)
     \<lparr>incoming_message_queue := [], dispatching_message_queue := []\<rparr>"
proof -
  let ?r = "(fold (dispatch_task c)
       (dispatching_message_queue io @ incoming_message_queue io) io)
     \<lparr>incoming_message_queue := [], dispatching_message_queue := []\<rparr>"
  have "dispatching_messages ?r = False"
    using assms by (simp add: fold_dispatch_queues)
  then have e: "?r\<lparr>dispatching_messages := False\<rparr> = ?r" by (rule flag_update_same)
  have "DispatchMessages c io = ?r\<lparr>dispatching_messages := False\<rparr>"
    using assms
    by (simp add: DispatchMessages_def dispatch_loop_fold fold_dispatch_flag_commute
        flag_update_same)
  with e show ?thesis by simp
qed

subsection \<open>Single tasks of the dispatch loop\<close>

text \<open>
  C6. When a processed \<^verbatim>\<open>kEndSession\<close> task leaves the session table empty, the state
  afterwards is \<^verbatim>\<open>kDone\<close> if the state before was \<^verbatim>\<open>kShutDown\<close> and
  \<^verbatim>\<open>kAccepting\<close> otherwise; so it is one of the two, and it is \<^verbatim>\<open>kDone\<close> exactly
  when the state before was \<^verbatim>\<open>kShutDown\<close>.
\<close>

theorem EndSession_state_transition:
  assumes "sessions (dispatch_task c (InspectorAction.kEndSession, sid, m) io) = []"
  shows "state (dispatch_task c (InspectorAction.kEndSession, sid, m) io) =
           (if state io = kShutDown then kDone else kAccepting) \<and>
         state (dispatch_task c (InspectorAction.kEndSession, sid, m) io) \<in> {kAccepting, kDone} \<and>
         (state (dispatch_task c (InspectorAction.kEndSession, sid, m) io) = kDone \<longleftrightarrow>
            state io = kShutDown)"
  using assms by (auto simp: dispatch_task_def Let_def split: if_splits)

text \<open>
  The transition at two inputs: a bridge in \<^verbatim>\<open>kShutDown\<close> and a bridge in
  \<^verbatim>\<open>kAccepting\<close>, each with session 1 as its only session.
\<close>

theorem EndSession_state_transition_witness:
  "sessions (dispatch_task (Some \<circ> nat) (InspectorAction.kEndSession, 1, [])
      ((InspectorIo_new False)\<lparr>state := kShutDown, sessions := [(1, Some 1)]\<rparr>)) = [] \<and>
   state (dispatch_task (Some \<circ> nat) (InspectorAction.kEndSession, 1, [])
      ((InspectorIo_new False)\<lparr>state := kShutDown, sessions := [(1, Some 1)]\<rparr>)) = kDone \<and>
   sessions (dispatch_task (Some \<circ> nat) (InspectorAction.kEndSession, 1, [])
      ((InspectorIo_new False)\<lparr>state := kAccepting, sessions := [(1, Some 1)]\<rparr>)) = [] \<and>
   state (dispatch_task (Some \<circ> nat) (InspectorAction.kEndSession, 1, [])
      ((InspectorIo_new False)\<lparr>state := kAccepting, sessions := [(1, Some 1)]\<rparr>)) = kAccepting"
proof -
  have a: "sessions (dispatch_task (Some \<circ> nat) (InspectorAction.kEndSession, 1, [])
      ((InspectorIo_new False)\<lparr>state := kShutDown, sessions := [(1, Some 1)]\<rparr>)) = []"
    by (simp add: dispatch_task_def InspectorIo_new_def Let_def)
  have b: "sessions (dispatch_task (Some \<circ> nat) (InspectorAction.kEndSession, 1, [])
      ((InspectorIo_new False)\<lparr>state := kAccepting, sessions := [(1, Some 1)]\<rparr>)) = []"
    by (simp add: dispatch_task_def InspectorIo_new_def Let_def)
  from EndSession_state_transition[OF a] EndSession_state_transition[OF b] a b
  show ?thesis by (simp add: InspectorIo_new_def)
qed

text \<open>
  C7. A processed \<^verbatim>\<open>kStartSession\<close> task calls \<^verbatim>\<open>Connect\<close> on the agent, stores
  the returned session at the session id and appends exactly one \<^verbatim>\<open>kAcceptSession\<close>
  action for that id to the outgoing queue. A processed
  \<^verbatim>\<open>kStartSessionUnconditionally\<close> task does the same connect and store and leaves
  the outgoing queue as it was.
\<close>

theorem StartSession_accepts_Unconditionally_does_not:
  "map_of (sessions (dispatch_task c (InspectorAction.kStartSession, sid, m) io)) sid =
     Some (c sid) \<and>
   agent_calls (dispatch_task c (InspectorAction.kStartSession, sid, m) io) =
     agent_calls io @ [Connect sid] \<and>
   outgoing_message_queue (dispatch_task c (InspectorAction.kStartSession, sid, m) io) =
     outgoing_message_queue io @ [(kAcceptSession, sid, [])] \<and>
   map_of (sessions
       (dispatch_task c (InspectorAction.kStartSessionUnconditionally, sid, m) io)) sid =
     Some (c sid) \<and>
   agent_calls (dispatch_task c (InspectorAction.kStartSessionUnconditionally, sid, m) io) =
     agent_calls io @ [Connect sid] \<and>
   outgoing_message_queue
       (dispatch_task c (InspectorAction.kStartSessionUnconditionally, sid, m) io) =
     outgoing_message_queue io"
  by (simp add: dispatch_task_def Attach_def Write_def AppendMessage_def Let_def
      update_conv')

theorem StartSession_accepts_Unconditionally_does_not_witness:
  "outgoing_message_queue (dispatch_task (Some \<circ> nat) (InspectorAction.kStartSession, 7, [])
      (InspectorIo_new False)) = [(kAcceptSession, 7, [])] \<and>
   map_of (sessions (dispatch_task (Some \<circ> nat) (InspectorAction.kStartSession, 7, [])
      (InspectorIo_new False))) 7 = Some (Some 7) \<and>
   outgoing_message_queue
      (dispatch_task (Some \<circ> nat) (InspectorAction.kStartSessionUnconditionally, 7, [])
        (InspectorIo_new True)) = [] \<and>
   agent_calls
      (dispatch_task (Some \<circ> nat) (InspectorAction.kStartSessionUnconditionally, 7, [])
        (InspectorIo_new True)) = [Connect 7]"
  using StartSession_accepts_Unconditionally_does_not[of "Some \<circ> nat" 7 "[]"
      "InspectorIo_new False"]
    StartSession_accepts_Unconditionally_does_not[of "Some \<circ> nat" 7 "[]"
      "InspectorIo_new True"]
  by (simp add: InspectorIo_new_def)

text \<open>
  C8. A processed \<^verbatim>\<open>kSendMessage\<close> task whose session id has no entry in the session
  table, or a null one, changes nothing: no call on the agent, nothing written to the
  outgoing queue, the same table and state; and a dispatch loop that finds only that
  task returns, with the incoming queue emptied and nothing else changed. When the entry
  holds a session, the payload is dispatched to that session.
\<close>

theorem SendMessage_to_vanished_session:
  "(map_of (sessions io) sid = None \<or> map_of (sessions io) sid = Some None \<longrightarrow>
      dispatch_task c (InspectorAction.kSendMessage, sid, payload) io = io \<and>
      (\<not> dispatching_messages io \<and> dispatching_message_queue io = [] \<and>
       incoming_message_queue io = [(InspectorAction.kSendMessage, sid, payload)] \<longrightarrow>
         DispatchMessages c io = io\<lparr>incoming_message_queue := []\<rparr>)) \<and>
   (\<forall>session. map_of (sessions io) sid = Some (Some session) \<longrightarrow>
      dispatch_task c (InspectorAction.kSendMessage, sid, payload) io =
        io\<lparr>agent_calls := agent_calls io @ [Dispatch session payload]\<rparr>)"
proof -
  have "dispatch_task c (InspectorAction.kSendMessage, sid, payload) io = io"
    if "map_of (sessions io) sid = None \<or> map_of (sessions io) sid = Some None"
    using that by (auto simp: dispatch_task_def)
  moreover have "DispatchMessages c io = io\<lparr>incoming_message_queue := []\<rparr>"
    if "map_of (sessions io) sid = None \<or> map_of (sessions io) sid = Some None"
      and "\<not> dispatching_messages io" "dispatching_message_queue io = []"
      "incoming_message_queue io = [(InspectorAction.kSendMessage, sid, payload)]"
  proof -
    have "dispatch_task c (InspectorAction.kSendMessage, sid, payload) io = io"
      using that(1) by (auto simp: dispatch_task_def)
    moreover have "io\<lparr>incoming_message_queue := [], dispatching_message_queue := []\<rparr> =
        io\<lparr>incoming_message_queue := []\<rparr>"
      using that(3) by simp
    ultimately show ?thesis
      using that(2-4) by (simp add: DispatchMessages_fold)
  qed
  moreover have "dispatch_task c (InspectorAction.kSendMessage, sid, payload) io =
        io\<lparr>agent_calls := agent_calls io @ [Dispatch session payload]\<rparr>"
    if "map_of (sessions io) sid = Some (Some session)" for session
    using that by (simp add: dispatch_task_def)
  ultimately show ?thesis by blast
qed

theorem SendMessage_to_vanished_session_witness:
  "map_of (sessions ((InspectorIo_new False)
       \<lparr>incoming_message_queue := [(InspectorAction.kSendMessage, 99, [0x78])]\<rparr>)) 99 = None \<and>
   DispatchMessages (Some \<circ> nat) ((InspectorIo_new False)
       \<lparr>incoming_message_queue := [(InspectorAction.kSendMessage, 99, [0x78])]\<rparr>) =
     InspectorIo_new False \<and>
   map_of (sessions ((InspectorIo_new False)\<lparr>sessions := [(5, Some 7)]\<rparr>)) 5 = Some (Some 7) \<and>
   agent_calls (dispatch_task (Some \<circ> nat) (InspectorAction.kSendMessage, 5, [0x78])
       ((InspectorIo_new False)\<lparr>sessions := [(5, Some 7)]\<rparr>)) = [Dispatch 7 [0x78]]"
  using SendMessage_to_vanished_session[of
      "(InspectorIo_new False)
         \<lparr>incoming_message_queue := [(InspectorAction.kSendMessage, 99, [0x78])]\<rparr>"
      99 "Some \<circ> nat" "[0x78]"]
    SendMessage_to_vanished_session[of
      "(InspectorIo_new False)\<lparr>sessions := [(5, Some 7)]\<rparr>" 5 "Some \<circ> nat" "[0x78]"]
  by (simp add: InspectorIo_new_def)

subsection \<open>What is written to standard error\<close>

lemma dispatch_task_stderr:
  "stderr (dispatch_task c t io) =
   stderr io @ (if attaches t then [''Debugger attached.'' @ [CHR 0x0A]] else [])"
  by (cases t) (simp add: dispatch_task_def attaches_def Attach_def Write_def
      AppendMessage_def Let_def split: InspectorAction.split option.split)

lemma fold_dispatch_stderr:
  "stderr (fold (dispatch_task c) ts io) =
   stderr io @ replicate (length (filter attaches ts)) (''Debugger attached.'' @ [CHR 0x0A])"
proof (induction ts arbitrary: io)
  case Nil
  show ?case by simp
next
  case (Cons t ts)
  show ?case
    by (simp add: Cons.IH dispatch_task_stderr replicate_app_Cons_same del: replicate.simps)
       (simp add: replicate_app_Cons_same)
qed

text \<open>
  C4, as the code has it. \<^verbatim>\<open>Attach\<close> writes \<^verbatim>\<open>"Debugger attached.\n"\<close> every time it
  is called: a run of the dispatch loop writes the line once for each
  \<^verbatim>\<open>kStartSession\<close> and \<^verbatim>\<open>kStartSessionUnconditionally\<close> task it processes, so the
  number of lines equals the number of attaches.
\<close>

theorem Debugger_attached_on_every_attach:
  assumes "\<not> dispatching_messages io"
  shows "stderr (DispatchMessages c io) =
     stderr io @ replicate (length (filter attaches (pending_messages io)))
                   (''Debugger attached.'' @ [CHR 0x0A])"
  using assms
  by (simp add: DispatchMessages_fold pending_messages_def fold_dispatch_stderr replicate_add)

theorem Debugger_attached_on_every_attach_witness:
  "\<not> dispatching_messages ((InspectorIo_new False)\<lparr>incoming_message_queue :=
       [(InspectorAction.kStartSession, 1, []), (InspectorAction.kSendMessage, 1, [0x78]),
        (InspectorAction.kStartSessionUnconditionally, 2, [])]\<rparr>) \<and>
   stderr (DispatchMessages (Some \<circ> nat) ((InspectorIo_new False)\<lparr>incoming_message_queue :=
       [(InspectorAction.kStartSession, 1, []), (InspectorAction.kSendMessage, 1, [0x78]),
        (InspectorAction.kStartSessionUnconditionally, 2, [])]\<rparr>)) =
     [''Debugger attached.'' @ [CHR 0x0A], ''Debugger attached.'' @ [CHR 0x0A]]"
  using Debugger_attached_on_every_attach[of
      "(InspectorIo_new False)\<lparr>incoming_message_queue :=
       [(InspectorAction.kStartSession, 1, []), (InspectorAction.kSendMessage, 1, [0x78]),
        (InspectorAction.kStartSessionUnconditionally, 2, [])]\<rparr>" "Some \<circ> nat"]
  by (simp add: InspectorIo_new_def pending_messages_def attaches_def)

text \<open>
  C4, as the claim states it, fails: two \<^verbatim>\<open>kStartSession\<close> tasks processed by a new
  bridge write the line twice.
\<close>

theorem Debugger_attached_only_once_counterexample:
  "stderr (DispatchMessages (Some \<circ> nat) ((InspectorIo_new False)\<lparr>incoming_message_queue :=
       [(InspectorAction.kStartSession, 1, []), (InspectorAction.kStartSession, 2, [])]\<rparr>)) =
     [''Debugger attached.'' @ [CHR 0x0A], ''Debugger attached.'' @ [CHR 0x0A]]"
  by (simp add: DispatchMessages_fold InspectorIo_new_def dispatch_task_stderr attaches_def)

subsection \<open>State, sessions and outgoing queue along the dispatch loop\<close>

lemma dispatch_task_sessions:
  "sessions (dispatch_task c (a, sid, m) io) =
     (if a = InspectorAction.kStartSession \<or> a = InspectorAction.kStartSessionUnconditionally
      then AList.update sid (c sid) (sessions io)
      else if a = InspectorAction.kEndSession then AList.delete sid (sessions io)
      else sessions io)"
  by (simp add: dispatch_task_def Attach_def Write_def AppendMessage_def Let_def
      split: InspectorAction.split option.split)

lemma dispatch_task_state:
  "state (dispatch_task c t io) =
     (if fst t = InspectorAction.kEndSession \<and> sessions (dispatch_task c t io) = []
      then (if state io = kShutDown then kDone else kAccepting)
      else state io)"
  by (cases t) (simp add: dispatch_task_def Attach_def Write_def AppendMessage_def Let_def
      split: InspectorAction.split option.split)

lemma dispatch_task_outgoing:
  "outgoing_message_queue (dispatch_task c t io) =
     outgoing_message_queue io @
     (if fst t = InspectorAction.kStartSession then [(kAcceptSession, fst (snd t), [])] else [])"
  by (cases t) (simp add: dispatch_task_def Attach_def Write_def AppendMessage_def Let_def
      split: InspectorAction.split option.split)

lemma dispatch_task_thread_joins:
  "thread_joins (dispatch_task c t io) = thread_joins io"
  by (cases t) (simp add: dispatch_task_def Attach_def Write_def AppendMessage_def Let_def
      split: InspectorAction.split option.split)

lemma fold_dispatch_thread_joins:
  "thread_joins (fold (dispatch_task c) ts io) = thread_joins io"
  by (induction ts arbitrary: io) (simp_all add: dispatch_task_thread_joins)

lemma fold_dispatch_outgoing:
  "outgoing_message_queue (fold (dispatch_task c) ts io) =
     outgoing_message_queue io @
     map (\<lambda>t. (kAcceptSession, fst (snd t), []))
       (filter (\<lambda>t. fst t = InspectorAction.kStartSession) ts)"
  by (induction ts arbitrary: io) (simp_all add: dispatch_task_outgoing)

lemma fold_dispatch_state_members:
  "state (fold (dispatch_task c) ts io) \<in> {state io, kDone, kAccepting}"
proof (induction ts arbitrary: io)
  case Nil
  show ?case by simp
next
  case (Cons t ts)
  from Cons.IH[of "dispatch_task c t io"] show ?case
    by (auto simp: dispatch_task_state split: if_splits)
qed

lemma fold_dispatch_state_shutdown:
  "state (fold (dispatch_task c) ts io) = kShutDown \<longleftrightarrow>
     state io = kShutDown \<and> \<not> empties_table c ts io"
proof (induction ts arbitrary: io)
  case Nil
  show ?case by simp
next
  case (Cons t ts)
  show ?case
    by (simp add: Cons.IH) (auto simp: dispatch_task_state)
qed

lemma dispatch_task_sessions_cong:
  "sessions io = sessions io2 \<Longrightarrow>
   sessions (dispatch_task c t io) = sessions (dispatch_task c t io2)"
  by (cases t) (simp add: dispatch_task_sessions)

lemma empties_table_cong:
  "sessions io = sessions io2 \<Longrightarrow> empties_table c ts io = empties_table c ts io2"
proof (induction ts arbitrary: io io2)
  case Nil
  show ?case by simp
next
  case (Cons t ts)
  from Cons.prems have e: "sessions (dispatch_task c t io) = sessions (dispatch_task c t io2)"
    by (rule dispatch_task_sessions_cong)
  from Cons.IH[OF e] e show ?case by simp
qed

subsection \<open>\<^verbatim>\<open>Stop\<close>\<close>

text \<open>
  C3, as the code has it. When the \<^verbatim>\<open>CHECK\<close> at the entry of \<^verbatim>\<open>Stop\<close> holds and the
  join returns 0, \<^verbatim>\<open>Stop\<close> returns; it has joined the I/O thread once and appended
  exactly one \<^verbatim>\<open>kKill\<close> action to the outgoing queue, followed only by the
  \<^verbatim>\<open>kAcceptSession\<close> actions of the \<^verbatim>\<open>kStartSession\<close> tasks of the final dispatch.
  The state at return is \<^verbatim>\<open>kShutDown\<close>, \<^verbatim>\<open>kDone\<close> or \<^verbatim>\<open>kAccepting\<close>. It is
  \<^verbatim>\<open>kShutDown\<close> exactly when no \<^verbatim>\<open>kEndSession\<close> task of the final dispatch leaves
  the session table empty; this includes a call from inside the dispatch loop, where the
  final dispatch does nothing. Outside the loop both incoming queues are empty at return.
\<close>

theorem Stop_postcondition:
  assumes "sessions io \<noteq> [] \<or> state io = kAccepting"
  shows "\<exists>io'. Stop c 0 io = Inr io' \<and>
     thread_joins io' = thread_joins io + 1 \<and>
     state io' \<in> {kShutDown, kDone, kAccepting} \<and>
     (dispatching_messages io \<longrightarrow>
        state io' = kShutDown \<and>
        outgoing_message_queue io' = outgoing_message_queue io @ [(kKill, 0, [])] \<and>
        pending_messages io' = pending_messages io) \<and>
     (\<not> dispatching_messages io \<longrightarrow>
        (state io' = kShutDown \<longleftrightarrow> \<not> empties_table c (pending_messages io) io) \<and>
        outgoing_message_queue io' =
          outgoing_message_queue io @ [(kKill, 0, [])] @
          map (\<lambda>t. (kAcceptSession, fst (snd t), []))
            (filter (\<lambda>t. fst t = InspectorAction.kStartSession) (pending_messages io)) \<and>
        pending_messages io' = [])"
proof -
  let ?io3 = "(Write kKill 0 [] io)\<lparr>thread_joins := thread_joins (Write kKill 0 [] io) + 1,
                 state := kShutDown\<rparr>"
  have stop: "Stop c 0 io = Inr (DispatchMessages c ?io3)"
    using assms by (auto simp: Stop_def Let_def)
  have f: "dispatching_messages ?io3 = dispatching_messages io"
    "pending_messages ?io3 = pending_messages io"
    "thread_joins ?io3 = thread_joins io + 1"
    "state ?io3 = kShutDown"
    "outgoing_message_queue ?io3 = outgoing_message_queue io @ [(kKill, 0, [])]"
    "sessions ?io3 = sessions io"
    by (simp_all add: Write_def AppendMessage_def pending_messages_def)
  show ?thesis
  proof (cases "dispatching_messages io")
    case True
    then have "DispatchMessages c ?io3 = ?io3"
      using f(1) by (simp add: DispatchMessages_def)
    with stop True f show ?thesis by simp
  next
    case False
    let ?r = "fold (dispatch_task c) (pending_messages io) ?io3"
    have d: "DispatchMessages c ?io3 =
        ?r\<lparr>incoming_message_queue := [], dispatching_message_queue := []\<rparr>"
      using False f(1) f(2) DispatchMessages_fold[of ?io3 c]
      by (simp add: pending_messages_def)
    have s1: "state ?r \<in> {kShutDown, kDone, kAccepting}"
      using fold_dispatch_state_members[of c "pending_messages io" ?io3] f(4) by auto
    have s2: "state ?r = kShutDown \<longleftrightarrow> \<not> empties_table c (pending_messages io) io"
      using fold_dispatch_state_shutdown[of c "pending_messages io" ?io3] f(4)
        empties_table_cong[OF f(6), of c "pending_messages io"] by simp
    have o: "outgoing_message_queue ?r =
          outgoing_message_queue io @ [(kKill, 0, [])] @
          map (\<lambda>t. (kAcceptSession, fst (snd t), []))
            (filter (\<lambda>t. fst t = InspectorAction.kStartSession) (pending_messages io))"
      using fold_dispatch_outgoing[of c "pending_messages io" ?io3] f(5) by simp
    have j: "thread_joins ?r = thread_joins io + 1"
      using fold_dispatch_thread_joins[of c "pending_messages io" ?io3] f(3) by simp
    from stop d s1 s2 o j False show ?thesis
      by (simp add: pending_messages_def)
  qed
qed


theorem Stop_postcondition_witness:
  "sessions ((InspectorIo_new False)\<lparr>state := kAccepting, sessions := [(1, Some 1)],
        incoming_message_queue := [(InspectorAction.kStartSession, 2, [])]\<rparr>) =
     [(1, Some 1)] \<and>
   state ((InspectorIo_new False)\<lparr>state := kAccepting, sessions := [(1, Some 1)],
        incoming_message_queue := [(InspectorAction.kStartSession, 2, [])]\<rparr>) = kAccepting \<and>
   map_sum id state (Stop (Some \<circ> nat) 0
      ((InspectorIo_new False)\<lparr>state := kAccepting, sessions := [(1, Some 1)],
        incoming_message_queue := [(InspectorAction.kStartSession, 2, [])]\<rparr>)) =
     Inr kShutDown \<and>
   map_sum id outgoing_message_queue (Stop (Some \<circ> nat) 0
      ((InspectorIo_new False)\<lparr>state := kAccepting, sessions := [(1, Some 1)],
        incoming_message_queue := [(InspectorAction.kStartSession, 2, [])]\<rparr>)) =
     Inr [(kKill, 0, []), (kAcceptSession, 2, [])]"
proof -
  let ?io = "(InspectorIo_new False)\<lparr>state := kAccepting, sessions := [(1, Some 1)],
        incoming_message_queue := [(InspectorAction.kStartSession, 2, [])]\<rparr>"
  have h: "sessions ?io \<noteq> [] \<or> state ?io = kAccepting" by simp
  have e: "\<not> empties_table (Some \<circ> nat) (pending_messages ?io) ?io"
    by (simp add: pending_messages_def InspectorIo_new_def)
  have n: "\<not> dispatching_messages ?io" "outgoing_message_queue ?io = []"
    "pending_messages ?io = [(InspectorAction.kStartSession, 2, [])]"
    by (simp_all add: InspectorIo_new_def pending_messages_def)
  from Stop_postcondition[OF h, of "Some \<circ> nat"] e n h show ?thesis by auto
qed

text \<open>
  C3, as the claim states it, fails. A bridge is started, session 1 is attached, and
  \<^verbatim>\<open>kEndSession\<close> for session 1 is pending when \<^verbatim>\<open>Stop\<close> is called: the final
  dispatch empties the table and \<^verbatim>\<open>Stop\<close> returns in state \<^verbatim>\<open>kDone\<close>.
\<close>

theorem Stop_returns_ShutDown_counterexample:
  "map_sum id state (Stop (Some \<circ> nat) 0
      (PostIncomingMessage (map of_char) InspectorAction.kEndSession 1 []
        (DispatchMessages (Some \<circ> nat)
          (PostIncomingMessage (map of_char) InspectorAction.kStartSession 1 []
            (snd (projr (Start (Some \<circ> nat) True (Some 9229) (InspectorIo_new False)))))))) =
     Inr kDone"
  by (simp add: Stop_def Start_def ThreadMain_def InspectorIo_new_def PostIncomingMessage_def
      AppendMessage_def Write_def DispatchMessages_fold Let_def dispatch_task_def Attach_def)

subsection \<open>\<^verbatim>\<open>Start\<close>\<close>

lemma DispatchMessages_state_not_kNew:
  "state io \<noteq> kNew \<Longrightarrow> state (DispatchMessages c io) \<noteq> kNew"
proof (cases "dispatching_messages io")
  case True
  assume "state io \<noteq> kNew"
  with True show ?thesis by (simp add: DispatchMessages_def)
next
  case False
  assume "state io \<noteq> kNew"
  with False fold_dispatch_state_members[of c "dispatching_message_queue io @ incoming_message_queue io" io]
  show ?thesis by (auto simp: DispatchMessages_fold)
qed

text \<open>
  C10. \<^verbatim>\<open>Start\<close> aborts on its first \<^verbatim>\<open>CHECK\<close> whenever the state is not
  \<^verbatim>\<open>kNew\<close>; it returns a value, true or false, only from \<^verbatim>\<open>kNew\<close>. After any
  return of \<^verbatim>\<open>Start\<close> and after any return of \<^verbatim>\<open>Stop\<close> the state is not
  \<^verbatim>\<open>kNew\<close>, so a further call of \<^verbatim>\<open>Start\<close> aborts and does not return false.
\<close>

theorem Start_requires_kNew:
  "(state io \<noteq> kNew \<longrightarrow> Start c thread_created server io = Inl CheckFailed) \<and>
   (\<forall>r io'. Start c thread_created server io = Inr (r, io') \<longrightarrow>
      state io = kNew \<and> Start c2 thread_created2 server2 io' = Inl CheckFailed) \<and>
   (\<forall>io'. Stop c err io = Inr io' \<longrightarrow>
      Start c2 thread_created2 server2 io' = Inl CheckFailed)"
proof -
  have a: "Start c2 thread_created2 server2 x = Inl CheckFailed" if "state x \<noteq> kNew" for x
    using that by (simp add: Start_def)
  have b: "state io = kNew \<and> state io' \<noteq> kNew"
    if "Start c thread_created server io = Inr (r, io')" for r io'
  proof -
    from that have n: "state io = kNew" by (auto simp: Start_def split: if_splits)
    have "state (DispatchMessages c x) \<noteq> kNew" if "state x = kAccepting" for x
      using that DispatchMessages_state_not_kNew[of x c] by simp
    with that n have "state io' \<noteq> kNew"
      by (auto simp: Start_def ThreadMain_def Let_def split: if_splits option.splits)
    with n show ?thesis by simp
  qed
  have d: "state io' \<noteq> kNew" if "Stop c err io = Inr io'" for io'
  proof -
    have "state (DispatchMessages c x) \<noteq> kNew" if "state x = kShutDown" for x
      using that DispatchMessages_state_not_kNew[of x c] by simp
    with that show ?thesis
      by (auto simp: Stop_def Let_def split: if_splits)
  qed
  have "state io \<noteq> kNew \<longrightarrow> Start c thread_created server io = Inl CheckFailed"
    by (simp add: Start_def)
  with a b d show ?thesis by blast
qed

theorem Start_requires_kNew_witness:
  "Start (Some \<circ> nat) True (Some 9229) (InspectorIo_new False) =
     Inr (True, (InspectorIo_new False)\<lparr>state := kAccepting, port := 9229\<rparr>) \<and>
   state (InspectorIo_new False) = kNew \<and>
   Start (Some \<circ> nat) True (Some 9229)
     ((InspectorIo_new False)\<lparr>state := kAccepting, port := 9229\<rparr>) = Inl CheckFailed \<and>
   Start (Some \<circ> nat) True None (InspectorIo_new False) =
     Inr (False, (InspectorIo_new False)\<lparr>state := kError\<rparr>) \<and>
   Start (Some \<circ> nat) True (Some 9229) ((InspectorIo_new False)\<lparr>state := kError\<rparr>) =
     Inl CheckFailed \<and>
   Stop (Some \<circ> nat) 0 ((InspectorIo_new False)\<lparr>state := kAccepting\<rparr>) =
     Inr ((InspectorIo_new False)\<lparr>state := kShutDown,
            outgoing_message_queue := [(kKill, 0, [])], thread_req_sends := 1,
            thread_joins := 1\<rparr>) \<and>
   Start (Some \<circ> nat) True (Some 9229)
     ((InspectorIo_new False)\<lparr>state := kShutDown,
            outgoing_message_queue := [(kKill, 0, [])], thread_req_sends := 1,
            thread_joins := 1\<rparr>) = Inl CheckFailed"
proof -
  have s1: "Start (Some \<circ> nat) True (Some 9229) (InspectorIo_new False) =
     Inr (True, (InspectorIo_new False)\<lparr>state := kAccepting, port := 9229\<rparr>)"
    by (simp add: Start_def ThreadMain_def InspectorIo_new_def)
  have s2: "Start (Some \<circ> nat) True None (InspectorIo_new False) =
     Inr (False, (InspectorIo_new False)\<lparr>state := kError\<rparr>)"
    by (simp add: Start_def ThreadMain_def InspectorIo_new_def)
  have s3: "Stop (Some \<circ> nat) 0 ((InspectorIo_new False)\<lparr>state := kAccepting\<rparr>) =
     Inr ((InspectorIo_new False)\<lparr>state := kShutDown,
            outgoing_message_queue := [(kKill, 0, [])], thread_req_sends := 1,
            thread_joins := 1\<rparr>)"
    by (simp add: Stop_def Write_def AppendMessage_def InspectorIo_new_def
        DispatchMessages_fold)
  have a1: "Start (Some \<circ> nat) True (Some 9229)
     ((InspectorIo_new False)\<lparr>state := kAccepting, port := 9229\<rparr>) = Inl CheckFailed"
    using Start_requires_kNew[of "InspectorIo_new False" "Some \<circ> nat" True "Some 9229"
      "Some \<circ> nat" True "Some 9229" 0] s1 by blast
  have a2: "Start (Some \<circ> nat) True (Some 9229)
     ((InspectorIo_new False)\<lparr>state := kError\<rparr>) = Inl CheckFailed"
    using Start_requires_kNew[of "InspectorIo_new False" "Some \<circ> nat" True None
      "Some \<circ> nat" True "Some 9229" 0] s2 by blast
  have a3: "Start (Some \<circ> nat) True (Some 9229)
     ((InspectorIo_new False)\<lparr>state := kShutDown,
            outgoing_message_queue := [(kKill, 0, [])], thread_req_sends := 1,
            thread_joins := 1\<rparr>) = Inl CheckFailed"
    using Start_requires_kNew[of "(InspectorIo_new False)\<lparr>state := kAccepting\<rparr>"
      "Some \<circ> nat" True "Some 9229" "Some \<circ> nat" True "Some 9229" 0] s3 by blast
  have "state (InspectorIo_new False) = kNew" by (simp add: InspectorIo_new_def)
  with s1 s2 s3 a1 a2 a3 show ?thesis by simp
qed

subsection \<open>The state and the session table\<close>

lemma update_not_Nil: "AList.update k v al \<noteq> []"
  by (cases al) auto

text \<open>
  C2, as the code has it. A bridge without sessions in state \<^verbatim>\<open>kAccepting\<close> keeps
  ``\<^verbatim>\<open>kAccepting\<close> implies an empty session table'' when a \<^verbatim>\<open>kEndSession\<close> or
  \<^verbatim>\<open>kSendMessage\<close> task is processed and when \<^verbatim>\<open>WaitForDisconnect\<close> is called. A
  processed \<^verbatim>\<open>kStartSession\<close> or \<^verbatim>\<open>kStartSessionUnconditionally\<close> task does not keep
  it: \<^verbatim>\<open>Attach\<close> leaves the state as it is and the session table is not empty
  afterwards.
\<close>

theorem Accepting_invariant_kept_except_by_Attach:
  assumes "accepting_implies_no_sessions io"
  shows "accepting_implies_no_sessions (dispatch_task c (InspectorAction.kEndSession, sid, m) io) \<and>
     accepting_implies_no_sessions (dispatch_task c (InspectorAction.kSendMessage, sid, m) io) \<and>
     accepting_implies_no_sessions (WaitForDisconnect io) \<and>
     state (dispatch_task c (InspectorAction.kStartSession, sid, m) io) = state io \<and>
     sessions (dispatch_task c (InspectorAction.kStartSession, sid, m) io) \<noteq> [] \<and>
     state (dispatch_task c (InspectorAction.kStartSessionUnconditionally, sid, m) io) =
       state io \<and>
     sessions (dispatch_task c (InspectorAction.kStartSessionUnconditionally, sid, m) io) \<noteq> []"
proof -
  have e: "accepting_implies_no_sessions
      (dispatch_task c (InspectorAction.kEndSession, sid, m) io)"
    using assms
    by (auto simp: accepting_implies_no_sessions_def dispatch_task_state
        dispatch_task_sessions)
  have s: "accepting_implies_no_sessions
      (dispatch_task c (InspectorAction.kSendMessage, sid, m) io)"
    using assms
    by (simp add: accepting_implies_no_sessions_def dispatch_task_state
        dispatch_task_sessions)
  have w: "accepting_implies_no_sessions (WaitForDisconnect io)"
    using assms
    by (auto simp: accepting_implies_no_sessions_def WaitForDisconnect_def Write_def
        AppendMessage_def Let_def)
  have a: "state (dispatch_task c (InspectorAction.kStartSession, sid, m) io) = state io"
    "state (dispatch_task c (InspectorAction.kStartSessionUnconditionally, sid, m) io) =
       state io"
    by (simp_all add: dispatch_task_state)
  have n: "sessions (dispatch_task c (InspectorAction.kStartSession, sid, m) io) \<noteq> []"
    "sessions (dispatch_task c (InspectorAction.kStartSessionUnconditionally, sid, m) io) \<noteq> []"
    by (simp_all add: dispatch_task_sessions update_not_Nil)
  from e s w a n show ?thesis by simp
qed

theorem Accepting_invariant_kept_except_by_Attach_witness:
  "accepting_implies_no_sessions
     (snd (projr (Start (Some \<circ> nat) True (Some 9229) (InspectorIo_new False)))) \<and>
   state (dispatch_task (Some \<circ> nat) (InspectorAction.kStartSession, 1, [])
     (snd (projr (Start (Some \<circ> nat) True (Some 9229) (InspectorIo_new False))))) =
     kAccepting \<and>
   sessions (dispatch_task (Some \<circ> nat) (InspectorAction.kStartSession, 1, [])
     (snd (projr (Start (Some \<circ> nat) True (Some 9229) (InspectorIo_new False))))) \<noteq> [] \<and>
   accepting_implies_no_sessions (dispatch_task (Some \<circ> nat) (InspectorAction.kEndSession, 1, [])
     (snd (projr (Start (Some \<circ> nat) True (Some 9229) (InspectorIo_new False)))))"
proof -
  let ?io = "snd (projr (Start (Some \<circ> nat) True (Some 9229) (InspectorIo_new False)))"
  have h: "accepting_implies_no_sessions ?io"
    by (simp add: accepting_implies_no_sessions_def Start_def ThreadMain_def
        InspectorIo_new_def)
  have st: "state ?io = kAccepting"
    by (simp add: Start_def ThreadMain_def InspectorIo_new_def)
  from Accepting_invariant_kept_except_by_Attach[OF h, of "Some \<circ> nat" 1 "[]"] h st
  show ?thesis by simp
qed

text \<open>
  C2, as the claim states it, fails. A started bridge with a posted \<^verbatim>\<open>kStartSession\<close>
  satisfies the implication; after the dispatch loop has processed the task the state is
  still \<^verbatim>\<open>kAccepting\<close> and the table holds session 1.
\<close>

theorem Accepting_implies_no_sessions_counterexample:
  "accepting_implies_no_sessions
     (PostIncomingMessage (map of_char) InspectorAction.kStartSession 1 []
       (snd (projr (Start (Some \<circ> nat) True (Some 9229) (InspectorIo_new False))))) \<and>
   \<not> accepting_implies_no_sessions
     (DispatchMessages (Some \<circ> nat)
       (PostIncomingMessage (map of_char) InspectorAction.kStartSession 1 []
         (snd (projr (Start (Some \<circ> nat) True (Some 9229) (InspectorIo_new False))))))"
  by (simp add: accepting_implies_no_sessions_def Start_def ThreadMain_def InspectorIo_new_def
      PostIncomingMessage_def AppendMessage_def Write_def DispatchMessages_fold Let_def
      dispatch_task_def Attach_def)

subsection \<open>The resume command seen by the transport delegate\<close>

lemma string_find_from_sublist:
  "string_find_from s needle pos \<noteq> None \<longleftrightarrow> sublist needle s"
  by (induction s arbitrary: pos) (auto simp: sublist_Cons_right)

lemma string_find_sublist: "string_find s needle \<noteq> None \<longleftrightarrow> sublist needle s"
  unfolding string_find_def by (rule string_find_from_sublist)

lemma MessageReceived_step:
  "MessageReceived U sid message (d, io) =
     (if waiting d \<and> sublist ''\"Runtime.runIfWaitingForDebugger\"'' message
      then (d\<lparr>waiting := False\<rparr>,
            PostIncomingMessage U InspectorAction.kSendMessage sid message (ResumeStartup io))
      else (d, PostIncomingMessage U InspectorAction.kSendMessage sid message io))"
  using string_find_sublist[of message "''\"Runtime.runIfWaitingForDebugger\"''"]
  by (simp add: MessageReceived_def)

lemma PostIncomingMessage_fields:
  "resume_startups (PostIncomingMessage U a sid message io) = resume_startups io"
  "incoming_message_queue (PostIncomingMessage U a sid message io) =
     incoming_message_queue io @ [(a, sid, U message)]"
  by (simp_all add: PostIncomingMessage_def AppendMessage_def Let_def)

lemma receive_messages_effect:
  "resume_startups (snd (receive_messages U msgs (d, io))) =
     resume_startups io +
     (if waiting d \<and> list_ex (\<lambda>sm. sublist ''\"Runtime.runIfWaitingForDebugger\"'' (snd sm)) msgs
      then 1 else 0) \<and>
   incoming_message_queue (snd (receive_messages U msgs (d, io))) =
     incoming_message_queue io @
     map (\<lambda>sm. (InspectorAction.kSendMessage, fst sm, U (snd sm))) msgs"
proof (induction msgs arbitrary: d io)
  case Nil
  show ?case by simp
next
  case (Cons sm msgs)
  show ?case
    by (simp add: MessageReceived_step Cons.IH PostIncomingMessage_fields ResumeStartup_def)
qed

text \<open>
  C5, as the code has it. The needle of \<^verbatim>\<open>MessageReceived\<close> is the method name between
  two double quotes, 33 characters. A delegate in waiting mode clears \<^verbatim>\<open>waiting_\<close> and
  calls \<^verbatim>\<open>ResumeStartup\<close> if and only if the message contains that needle; a delegate
  that is not waiting does neither. In every case the message is posted to the incoming
  queue as \<^verbatim>\<open>kSendMessage\<close>. Over any sequence of messages given to one delegate,
  \<^verbatim>\<open>ResumeStartup\<close> is called at most once and every message is posted, in order.
\<close>

theorem MessageReceived_resumes_on_quoted_command:
  "(waiting d \<and> sublist ''\"Runtime.runIfWaitingForDebugger\"'' message \<longrightarrow>
      \<not> waiting (fst (MessageReceived U sid message (d, io))) \<and>
      resume_startups (snd (MessageReceived U sid message (d, io))) =
        resume_startups io + 1) \<and>
   (\<not> (waiting d \<and> sublist ''\"Runtime.runIfWaitingForDebugger\"'' message) \<longrightarrow>
      waiting (fst (MessageReceived U sid message (d, io))) = waiting d \<and>
      resume_startups (snd (MessageReceived U sid message (d, io))) = resume_startups io) \<and>
   incoming_message_queue (snd (MessageReceived U sid message (d, io))) =
     incoming_message_queue io @ [(InspectorAction.kSendMessage, sid, U message)] \<and>
   resume_startups (snd (receive_messages U msgs (d, io))) \<le> resume_startups io + 1 \<and>
   incoming_message_queue (snd (receive_messages U msgs (d, io))) =
     incoming_message_queue io @
     map (\<lambda>sm. (InspectorAction.kSendMessage, fst sm, U (snd sm))) msgs"
  using receive_messages_effect[of U msgs d io]
  by (simp add: MessageReceived_step PostIncomingMessage_fields ResumeStartup_def)

theorem MessageReceived_resumes_on_quoted_command_witness:
  "waiting \<lparr>session_id = 1, waiting = True\<rparr> \<and>
   sublist ''\"Runtime.runIfWaitingForDebugger\"''
     ''{\"id\":1,\"method\":\"Runtime.runIfWaitingForDebugger\"}'' \<and>
   \<not> waiting (fst (MessageReceived (map of_char) 1
        ''{\"id\":1,\"method\":\"Runtime.runIfWaitingForDebugger\"}''
        (\<lparr>session_id = 1, waiting = True\<rparr>, InspectorIo_new True))) \<and>
   resume_startups (snd (MessageReceived (map of_char) 1
        ''{\"id\":1,\"method\":\"Runtime.runIfWaitingForDebugger\"}''
        (\<lparr>session_id = 1, waiting = True\<rparr>, InspectorIo_new True))) = 1 \<and>
   resume_startups (snd (receive_messages (map of_char)
        [(1, ''{\"id\":1,\"method\":\"Runtime.runIfWaitingForDebugger\"}''),
         (1, ''{\"id\":2,\"method\":\"Runtime.runIfWaitingForDebugger\"}'')]
        (\<lparr>session_id = 1, waiting = True\<rparr>, InspectorIo_new True))) = 1"
proof -
  have s: "sublist ''\"Runtime.runIfWaitingForDebugger\"''
     ''{\"id\":1,\"method\":\"Runtime.runIfWaitingForDebugger\"}''"
    by (simp add: sublist_Cons_right)
  have r: "resume_startups (snd (receive_messages (map of_char)
        [(1, ''{\"id\":1,\"method\":\"Runtime.runIfWaitingForDebugger\"}''),
         (1, ''{\"id\":2,\"method\":\"Runtime.runIfWaitingForDebugger\"}'')]
        (\<lparr>session_id = 1, waiting = True\<rparr>, InspectorIo_new True))) \<ge> 1"
    by (simp add: MessageReceived_def string_find_def PostIncomingMessage_def
        AppendMessage_def ResumeStartup_def InspectorIo_new_def Let_def)
  from MessageReceived_resumes_on_quoted_command[of "\<lparr>session_id = 1, waiting = True\<rparr>"
      "''{\"id\":1,\"method\":\"Runtime.runIfWaitingForDebugger\"}''" "map of_char" 1
      "InspectorIo_new True"
      "[(1, ''{\"id\":1,\"method\":\"Runtime.runIfWaitingForDebugger\"}''),
         (1, ''{\"id\":2,\"method\":\"Runtime.runIfWaitingForDebugger\"}'')]"] s r
  show ?thesis by (simp add: InspectorIo_new_def)
qed

text \<open>
  C5, as the claim states it, fails: a message that contains the method name without the
  double quotes around it leaves the delegate waiting and does not call
  \<^verbatim>\<open>ResumeStartup\<close>.
\<close>

theorem MessageReceived_bare_method_name_counterexample:
  "sublist ''Runtime.runIfWaitingForDebugger'' ''{method:Runtime.runIfWaitingForDebugger}'' \<and>
   waiting (fst (MessageReceived (map of_char) 1 ''{method:Runtime.runIfWaitingForDebugger}''
        (\<lparr>session_id = 1, waiting = True\<rparr>, InspectorIo_new True))) \<and>
   resume_startups (snd (MessageReceived (map of_char) 1
        ''{method:Runtime.runIfWaitingForDebugger}''
        (\<lparr>session_id = 1, waiting = True\<rparr>, InspectorIo_new True))) = 0"
  by (simp add: sublist_Cons_right MessageReceived_def string_find_def PostIncomingMessage_def
        AppendMessage_def ResumeStartup_def InspectorIo_new_def Let_def)

subsection \<open>Wakeups of the peer thread\<close>

lemma dispatch_task_wakeups:
  "main_thread_req_sends (dispatch_task c t io) = main_thread_req_sends io"
  "thread_req_sends (dispatch_task c t io) + length (outgoing_message_queue io) =
     thread_req_sends io + length (outgoing_message_queue (dispatch_task c t io))"
  by (cases t; simp add: dispatch_task_def Attach_def Write_def AppendMessage_def Let_def
      split: InspectorAction.split option.split)+

lemma fold_dispatch_wakeups:
  "main_thread_req_sends (fold (dispatch_task c) ts io) = main_thread_req_sends io \<and>
   thread_req_sends (fold (dispatch_task c) ts io) + length (outgoing_message_queue io) =
     thread_req_sends io + length (outgoing_message_queue (fold (dispatch_task c) ts io))"
proof (induction ts arbitrary: io)
  case Nil
  show ?case by simp
next
  case (Cons t ts)
  from Cons.IH[of "dispatch_task c t io"] dispatch_task_wakeups[of c t io]
  show ?case by simp
qed

lemma DispatchMessages_wakeups:
  "main_thread_req_sends (DispatchMessages c io) = main_thread_req_sends io \<and>
   thread_req_sends (DispatchMessages c io) + length (outgoing_message_queue io) =
     thread_req_sends io + length (outgoing_message_queue (DispatchMessages c io))"
proof (cases "dispatching_messages io")
  case True
  then show ?thesis by (simp add: DispatchMessages_def)
next
  case False
  with fold_dispatch_wakeups[of c "dispatching_message_queue io @ incoming_message_queue io" io]
  show ?thesis by (simp add: DispatchMessages_fold)
qed

lemma PostIncomingMessage_wakeups:
  "main_thread_req_sends (PostIncomingMessage U a sid message io) =
     main_thread_req_sends io + (if incoming_message_queue io = [] then 1 else 0)"
  "foreground_tasks (PostIncomingMessage U a sid message io) =
     foreground_tasks io + (if incoming_message_queue io = [] then 1 else 0)"
  "interrupts (PostIncomingMessage U a sid message io) =
     interrupts io + (if incoming_message_queue io = [] then 1 else 0)"
  "broadcasts (PostIncomingMessage U a sid message io) = broadcasts io + 1"
  "thread_req_sends (PostIncomingMessage U a sid message io) = thread_req_sends io"
  "outgoing_message_queue (PostIncomingMessage U a sid message io) = outgoing_message_queue io"
  by (simp_all add: PostIncomingMessage_def AppendMessage_def Let_def)

lemma Write_wakeups:
  "thread_req_sends (Write ta sid view io) = thread_req_sends io + 1"
  "outgoing_message_queue (Write ta sid view io) = outgoing_message_queue io @ [(ta, sid, view)]"
  "main_thread_req_sends (Write ta sid view io) = main_thread_req_sends io"
  by (simp_all add: Write_def AppendMessage_def)

lemma run_calls_wakeups:
  "main_thread_req_sends (run_calls c U calls io) =
     main_thread_req_sends io + incoming_appends_on_empty c U calls io \<and>
   thread_req_sends (run_calls c U calls io) + length (outgoing_message_queue io) =
     thread_req_sends io + length (outgoing_message_queue (run_calls c U calls io))"
proof (induction calls arbitrary: io)
  case Nil
  show ?case by simp
next
  case (Cons call calls)
  show ?case
  proof (cases call)
    case (CallPostIncomingMessage a sid message)
    with Cons.IH[of "PostIncomingMessage U a sid message io"] show ?thesis
      by (simp add: PostIncomingMessage_wakeups)
  next
    case (CallWrite ta sid view)
    with Cons.IH[of "Write ta sid view io"] show ?thesis
      by (simp add: Write_wakeups)
  next
    case CallDispatchMessages
    with Cons.IH[of "DispatchMessages c io"] DispatchMessages_wakeups[of c io] show ?thesis
      by simp
  qed
qed

text \<open>
  C1, as the code has it. \<^verbatim>\<open>AppendMessage\<close> returns true exactly when the queue was
  empty at entry. \<^verbatim>\<open>PostIncomingMessage\<close> wakes the runtime thread (a foreground task,
  an interrupt request and a send on \<^verbatim>\<open>main_thread_req_\<close>) exactly when
  \<^verbatim>\<open>AppendMessage\<close> returned true. \<^verbatim>\<open>Write\<close> sends on \<^verbatim>\<open>thread_req_\<close> on every call.
  So over any sequence of pushes and runs of the dispatch loop, the number of wakeups of
  the runtime thread is the number of pushes that found the incoming queue empty, and
  the number of wakeups of the I/O thread is the number of actions appended to the
  outgoing queue.
\<close>

theorem Wakeups_on_push:
  "fst (AppendMessage (incoming_message_queue io) a sid (U message)) =
     (incoming_message_queue io = []) \<and>
   main_thread_req_sends (PostIncomingMessage U a sid message io) =
     main_thread_req_sends io + (if incoming_message_queue io = [] then 1 else 0) \<and>
   foreground_tasks (PostIncomingMessage U a sid message io) =
     foreground_tasks io + (if incoming_message_queue io = [] then 1 else 0) \<and>
   interrupts (PostIncomingMessage U a sid message io) =
     interrupts io + (if incoming_message_queue io = [] then 1 else 0) \<and>
   thread_req_sends (Write ta sid view io) = thread_req_sends io + 1 \<and>
   main_thread_req_sends (run_calls c U calls io) =
     main_thread_req_sends io + incoming_appends_on_empty c U calls io \<and>
   thread_req_sends (run_calls c U calls io) + length (outgoing_message_queue io) =
     thread_req_sends io + length (outgoing_message_queue (run_calls c U calls io))"
  using run_calls_wakeups[of c U calls io]
  by (simp add: PostIncomingMessage_wakeups Write_wakeups) (simp add: AppendMessage_def)

theorem Wakeups_on_push_witness:
  "main_thread_req_sends (run_calls (Some \<circ> nat) (map of_char)
      [CallPostIncomingMessage InspectorAction.kStartSession 1 [],
       CallPostIncomingMessage InspectorAction.kSendMessage 1 ''{}'',
       CallDispatchMessages,
       CallPostIncomingMessage InspectorAction.kEndSession 1 [],
       CallWrite kStop 0 []]
      (InspectorIo_new False)) = 2 \<and>
   incoming_appends_on_empty (Some \<circ> nat) (map of_char)
      [CallPostIncomingMessage InspectorAction.kStartSession 1 [],
       CallPostIncomingMessage InspectorAction.kSendMessage 1 ''{}'',
       CallDispatchMessages,
       CallPostIncomingMessage InspectorAction.kEndSession 1 [],
       CallWrite kStop 0 []]
      (InspectorIo_new False) = 2 \<and>
   thread_req_sends (run_calls (Some \<circ> nat) (map of_char)
      [CallPostIncomingMessage InspectorAction.kStartSession 1 [],
       CallPostIncomingMessage InspectorAction.kSendMessage 1 ''{}'',
       CallDispatchMessages,
       CallPostIncomingMessage InspectorAction.kEndSession 1 [],
       CallWrite kStop 0 []]
      (InspectorIo_new False)) = 2"
proof -
  let ?calls = "[CallPostIncomingMessage InspectorAction.kStartSession 1 [],
       CallPostIncomingMessage InspectorAction.kSendMessage 1 ''{}'',
       CallDispatchMessages,
       CallPostIncomingMessage InspectorAction.kEndSession 1 [],
       CallWrite kStop 0 []]"
  have n: "incoming_appends_on_empty (Some \<circ> nat) (map of_char) ?calls
      (InspectorIo_new False) = 2"
    by (simp add: InspectorIo_new_def PostIncomingMessage_def AppendMessage_def Let_def
        DispatchMessages_fold)
  have o: "outgoing_message_queue (run_calls (Some \<circ> nat) (map of_char) ?calls
      (InspectorIo_new False)) = [(kAcceptSession, 1, []), (kStop, 0, [])]"
    by (simp add: InspectorIo_new_def PostIncomingMessage_def AppendMessage_def Let_def
        DispatchMessages_fold dispatch_task_def Attach_def Write_def)
  have z: "main_thread_req_sends (InspectorIo_new False) = 0"
    "thread_req_sends (InspectorIo_new False) = 0"
    "outgoing_message_queue (InspectorIo_new False) = []"
    by (simp_all add: InspectorIo_new_def)
  from Wakeups_on_push[where io = "InspectorIo_new False" and c = "Some \<circ> nat"
      and U = "map of_char" and calls = ?calls] n o z
  show ?thesis by simp
qed

text \<open>
  C1, as the claim states it, fails for \<^verbatim>\<open>Write\<close>: the second of two writes finds the
  outgoing queue non-empty, so \<^verbatim>\<open>AppendMessage\<close> returns false, and the I/O thread
  is signalled all the same.
\<close>

theorem Write_wakes_only_on_empty_queue_counterexample:
  "\<not> fst (AppendMessage
       (outgoing_message_queue (Write TransportAction.kSendMessage 1 [] (InspectorIo_new False)))
       TransportAction.kSendMessage 1 []) \<and>
   thread_req_sends (Write TransportAction.kSendMessage 1 []
       (Write TransportAction.kSendMessage 1 [] (InspectorIo_new False))) =
     thread_req_sends (Write TransportAction.kSendMessage 1 [] (InspectorIo_new False)) + 1"
  by (simp add: Write_def AppendMessage_def InspectorIo_new_def)

end
